theory Spec2Isabelle
  imports Main "HOL-Library.Product_Lexorder" "HOL-Library.Multiset"
begin

section \<open>Data model\<close>

text \<open>
  The program (\<^verbatim>\<open>src/main.py\<close>) handles the decoded JSON bodies of GitHub API
  responses. A decoded JSON value is a Python \<^verbatim>\<open>None\<close>, \<^verbatim>\<open>bool\<close>,
  \<^verbatim>\<open>int\<close>, \<^verbatim>\<open>str\<close>, \<^verbatim>\<open>list\<close> or \<^verbatim>\<open>dict\<close>. An object is
  kept as the list of its members in document order; \<^verbatim>\<open>json.loads\<close> keeps the last
  of several members with one name. Floating-point numbers are left out of the model.
\<close>

datatype json =
    JNull
  | JBool bool
  | JNum int
  | JStr string
  | JArr "json list"
  | JObj "(string \<times> json) list"

text \<open>The exceptions the program can raise.\<close>

datatype py_error =
    AttributeError
  | TypeError
  | ValueError
  | JSONDecodeError
  | ConnectionError
  | UnboundLocalError

text \<open>
  The URL of a request, kept as the values the f-string formats:
  \<^verbatim>\<open>https://api.github.com/repos/{owner}/{repo}/{endpoint}\<close>,
  \<^verbatim>\<open>https://api.github.com/repos/{owner}/{repo}/commits/{sha}\<close>, and the
  \<^verbatim>\<open>url\<close> member of a pull request followed by \<^verbatim>\<open>/files\<close>.
\<close>

datatype url =
    RepoUrl string string string
  | CommitUrl string string json
  | FilesUrl string

record params =
  since :: string
  until :: string
  per_page :: nat
  page :: "nat option"

record request =
  req_url :: url
  req_params :: "params option"
  req_headers :: "string option"

record response =
  status_code :: int
  payload :: "json option"

text \<open>
  The effects of a run: the requests issued so far, the lines printed, and the seconds
  spent in \<^verbatim>\<open>time.sleep\<close>. The remote side is a sequence \<open>net\<close> of replies: the
  request number \<open>i\<close> of a run (counted from 0) receives \<open>net i\<close>, where \<open>None\<close>
  is a network fault, on which \<^verbatim>\<open>requests.get\<close> raises. The payload of a
  response is its decoded body, \<open>None\<close> when the body is not JSON.
\<close>

record world =
  requests :: "request list"
  printed :: "string list"
  slept :: nat

type_synonym network = "nat \<Rightarrow> response option"

definition requests_get :: "network \<Rightarrow> request \<Rightarrow> world \<Rightarrow> response option \<times> world" where
  "requests_get net r w = (net (length (requests w)), w\<lparr>requests := requests w @ [r]\<rparr>)"

definition print :: "string \<Rightarrow> world \<Rightarrow> world" where
  "print s w = w\<lparr>printed := printed w @ [s]\<rparr>"

definition sleep :: "nat \<Rightarrow> world \<Rightarrow> world" where
  "sleep n w = w\<lparr>slept := slept w + n\<rparr>"

section \<open>Python primitives\<close>

text \<open>\<^verbatim>\<open>str(n)\<close> for an integer.\<close>

definition digit_char :: "nat \<Rightarrow> char" where
  "digit_char d = ''0123456789'' ! d"

fun str_nat :: "nat \<Rightarrow> string" where
  "str_nat n = (if n < 10 then [digit_char n] else str_nat (n div 10) @ [digit_char (n mod 10)])"

declare str_nat.simps [simp del]

definition str_int :: "int \<Rightarrow> string" where
  "str_int i = (if i < 0 then CHR ''-'' # str_nat (nat (- i)) else str_nat (nat i))"

text \<open>Truthiness of a value, as \<^verbatim>\<open>if x:\<close> and \<^verbatim>\<open>not x\<close> test it.\<close>

fun truthy :: "json \<Rightarrow> bool" where
  "truthy JNull = False"
| "truthy (JBool b) = b"
| "truthy (JNum n) = (n \<noteq> 0)"
| "truthy (JStr s) = (s \<noteq> [])"
| "truthy (JArr xs) = (xs \<noteq> [])"
| "truthy (JObj kvs) = (kvs \<noteq> [])"

text \<open>
  \<^verbatim>\<open>x.get(k, d)\<close>: only a dict has the method; any other value raises
  AttributeError.
\<close>

fun dict_get :: "json \<Rightarrow> string \<Rightarrow> json \<Rightarrow> py_error + json" where
  "dict_get (JObj kvs) k d = Inr (case map_of (rev kvs) k of None \<Rightarrow> d | Some v \<Rightarrow> v)"
| "dict_get _ k d = Inl AttributeError"

text \<open>
  Iterating over a value, as \<^verbatim>\<open>items.extend(data)\<close> and a generator do: a list
  yields its elements, a dict its keys (each once, in the order of first appearance), a
  string its characters; other values are not iterable. \<^verbatim>\<open>len\<close> of an iterable
  JSON value is the number of elements it yields.
\<close>

fun py_iter :: "json \<Rightarrow> json list option" where
  "py_iter (JArr xs) = Some xs"
| "py_iter (JObj kvs) = Some (map JStr (rev (remdups (rev (map fst kvs)))))"
| "py_iter (JStr s) = Some (map (\<lambda>c. JStr [c]) s)"
| "py_iter _ = None"

text \<open>Sequencing of computations that may raise.\<close>

definition bind_err :: "'e + 'a \<Rightarrow> ('a \<Rightarrow> 'e + 'b) \<Rightarrow> 'e + 'b" where
  "bind_err m f = (case m of Inl e \<Rightarrow> Inl e | Inr x \<Rightarrow> f x)"

section \<open>get_github_data\<close>

text \<open>
  \<^verbatim>\<open>if token:\<close> holds for a non-empty string; the header is then
  \<^verbatim>\<open>token {token}\<close>.
\<close>

definition auth_headers :: "string option \<Rightarrow> string option" where
  "auth_headers token =
     (case token of None \<Rightarrow> None
      | Some t \<Rightarrow> if t \<noteq> [] then Some (''token '' @ t) else None)"

definition page_request :: "url \<Rightarrow> params \<Rightarrow> string option \<Rightarrow> nat \<Rightarrow> request" where
  "page_request base_url ps headers p =
     \<lparr>req_url = base_url, req_params = Some (ps\<lparr>page := Some p\<rparr>), req_headers = headers\<rparr>"

text \<open>
  The \<^verbatim>\<open>while True\<close> loop of \<^verbatim>\<open>get_github_data\<close>. It may run forever (a
  server that answers 403 to every request), so the result is optional: \<open>None\<close> is a
  loop that never returns. A result is the pair of the value returned or the exception
  raised, and the world after the call.
\<close>

partial_function (option) get_github_data_loop ::
  "network \<Rightarrow> url \<Rightarrow> params \<Rightarrow> string option \<Rightarrow> json list \<Rightarrow> nat \<Rightarrow> world
   \<Rightarrow> ((py_error + json list) \<times> world) option" where
  "get_github_data_loop net base_url ps headers items p w =
     (case requests_get net (page_request base_url ps headers p) w of
        (None, w1) \<Rightarrow> Some (Inl ConnectionError, w1)
      | (Some response, w1) \<Rightarrow>
          if status_code response = 200 then
            (case payload response of
               None \<Rightarrow> Some (Inl JSONDecodeError, w1)
             | Some data \<Rightarrow>
                 (case py_iter data of
                    None \<Rightarrow> Some (Inl TypeError, w1)
                  | Some elems \<Rightarrow>
                      if length elems < per_page ps then Some (Inr (items @ elems), w1)
                      else get_github_data_loop net base_url ps headers (items @ elems) (p + 1) w1))
          else if status_code response = 403 then
            get_github_data_loop net base_url ps headers items p
              (sleep 60 (print ''Rate limit exceeded. Waiting 60 seconds...'' w1))
          else
            Some (Inr items, print (''API request failed: '' @ str_int (status_code response)) w1))"

text \<open>
  Dates are kept as their \<^verbatim>\<open>isoformat()\<close> text.
\<close>

definition list_params :: "string \<Rightarrow> string \<Rightarrow> params" where
  "list_params start_date end_date =
     \<lparr>since = start_date @ ''T00:00:00Z'', until = end_date @ ''T23:59:59Z'',
      per_page = 100, page = None\<rparr>"

definition get_github_data ::
  "network \<Rightarrow> string \<Rightarrow> string \<Rightarrow> string \<Rightarrow> string \<Rightarrow> string \<Rightarrow> string option \<Rightarrow> world
   \<Rightarrow> ((py_error + json list) \<times> world) option" where
  "get_github_data net owner repo endpoint start_date end_date token w =
     get_github_data_loop net (RepoUrl owner repo endpoint)
       (list_params start_date end_date) (auth_headers token) [] 1 w"

section \<open>get_commit_details\<close>

text \<open>
  The two values returned are whatever the \<^verbatim>\<open>stats\<close> member holds; they are
  added only by the caller.
\<close>

definition get_commit_details ::
  "network \<Rightarrow> string \<Rightarrow> string \<Rightarrow> json \<Rightarrow> string option \<Rightarrow> world
   \<Rightarrow> (py_error + json \<times> json) \<times> world" where
  "get_commit_details net owner repo sha token w =
     (case requests_get net
             \<lparr>req_url = CommitUrl owner repo sha, req_params = None,
              req_headers = auth_headers token\<rparr> w of
        (None, w1) \<Rightarrow> (Inl ConnectionError, w1)
      | (Some response, w1) \<Rightarrow>
          if status_code response = 200 then
            (case payload response of
               None \<Rightarrow> (Inl JSONDecodeError, w1)
             | Some commit_data \<Rightarrow>
                 (bind_err (dict_get commit_data ''stats'' (JObj [])) (\<lambda>st.
                  bind_err (dict_get st ''additions'' (JNum 0)) (\<lambda>additions.
                  bind_err (dict_get commit_data ''stats'' (JObj [])) (\<lambda>st'.
                  bind_err (dict_get st' ''deletions'' (JNum 0)) (\<lambda>deletions.
                  Inr (additions, deletions))))), w1))
          else
            (Inr (JNum 0, JNum 0),
             print (''Failed to fetch commit details: '' @ str_int (status_code response)) w1))"

section \<open>get_user_stats_per_endpoint\<close>

text \<open>
  The keys of \<^verbatim>\<open>user_stats\<close> are the hashable JSON values; a list or a dict as a
  key raises TypeError. Python compares keys with \<^verbatim>\<open>==\<close>, under which
  \<^verbatim>\<open>True\<close> is 1 and \<^verbatim>\<open>False\<close> is 0. The dict is kept as the list of its
  entries in insertion order, which is the order of \<^verbatim>\<open>items()\<close>.
\<close>

datatype key = KNone | KBool bool | KInt int | KStr string

fun hashable :: "json \<Rightarrow> key option" where
  "hashable JNull = Some KNone"
| "hashable (JBool b) = Some (KBool b)"
| "hashable (JNum n) = Some (KInt n)"
| "hashable (JStr s) = Some (KStr s)"
| "hashable (JArr xs) = None"
| "hashable (JObj kvs) = None"

fun key_norm :: "key \<Rightarrow> key" where
  "key_norm (KBool b) = KInt (if b then 1 else 0)"
| "key_norm k = k"

definition key_eq :: "key \<Rightarrow> key \<Rightarrow> bool" where
  "key_eq a b = (key_norm a = key_norm b)"

record counters =
  prs :: int
  commits :: int
  lines :: int

type_synonym stats = "(key \<times> counters) list"

definition zero_counters :: counters where
  "zero_counters = \<lparr>prs = 0, commits = 0, lines = 0\<rparr>"

fun stats_get :: "stats \<Rightarrow> key \<Rightarrow> counters option" where
  "stats_get [] k = None"
| "stats_get ((k', c) # d) k = (if key_eq k k' then Some c else stats_get d k)"

text \<open>\<^verbatim>\<open>d[k][field] = ...\<close> on a key that is in the dict.\<close>

fun stats_modify :: "key \<Rightarrow> (counters \<Rightarrow> counters) \<Rightarrow> stats \<Rightarrow> stats" where
  "stats_modify k f [] = []"
| "stats_modify k f ((k', c) # d) =
     (if key_eq k k' then (k', f c) # d else (k', c) # stats_modify k f d)"

text \<open>
  \<^verbatim>\<open>if user not in d: d[user] = {'prs': 0, 'commits': 0, 'lines': 0}\<close>
\<close>

definition ensure_entry :: "key \<Rightarrow> stats \<Rightarrow> stats" where
  "ensure_entry k d = (if stats_get d k = None then d @ [(k, zero_counters)] else d)"

definition ensure_user :: "json \<Rightarrow> stats \<Rightarrow> py_error + key \<times> stats" where
  "ensure_user user_login d =
     (case hashable user_login of
        None \<Rightarrow> Inl TypeError
      | Some k \<Rightarrow> Inr (k, ensure_entry k d))"

text \<open>Integer view of a value that Python's \<^verbatim>\<open>+\<close> treats as a number.\<close>

fun as_int :: "json \<Rightarrow> int option" where
  "as_int (JNum n) = Some n"
| "as_int (JBool b) = Some (if b then 1 else 0)"
| "as_int _ = None"

text \<open>\<^verbatim>\<open>a + b\<close> on two JSON values.\<close>

definition py_add :: "json \<Rightarrow> json \<Rightarrow> py_error + json" where
  "py_add a b =
     (case (as_int a, as_int b) of
        (Some x, Some y) \<Rightarrow> Inr (JNum (x + y))
      | _ \<Rightarrow>
        (case (a, b) of
           (JStr s, JStr t) \<Rightarrow> Inr (JStr (s @ t))
         | (JArr xs, JArr ys) \<Rightarrow> Inr (JArr (xs @ ys))
         | _ \<Rightarrow> Inl TypeError))"

text \<open>
  \<^verbatim>\<open>n + v\<close> for an integer \<open>n\<close>: a TypeError unless \<open>v\<close> is a number.
\<close>

definition int_add :: "int \<Rightarrow> json \<Rightarrow> py_error + int" where
  "int_add n v = (case as_int v of Some x \<Rightarrow> Inr (n + x) | None \<Rightarrow> Inl TypeError)"

text \<open>\<^verbatim>\<open>sum(f.get('changes', 0) for f in pr_files)\<close>, element by element.\<close>

fun sum_changes :: "json list \<Rightarrow> int \<Rightarrow> py_error + int" where
  "sum_changes [] acc = Inr acc"
| "sum_changes (f # fs) acc =
     bind_err (dict_get f ''changes'' (JNum 0)) (\<lambda>v.
     bind_err (int_add acc v) (\<lambda>acc'. sum_changes fs acc'))"

text \<open>Line 62: the identity of a pull request.\<close>

definition pulls_login :: "json \<Rightarrow> py_error + json" where
  "pulls_login item =
     bind_err (dict_get item ''user'' (JObj [])) (\<lambda>u.
     dict_get u ''login'' (JStr ''unknown''))"

text \<open>Lines 64 to 66, and again lines 83 to 86: the identity of a commit.\<close>

definition commits_login :: "json \<Rightarrow> py_error + json" where
  "commits_login item =
     bind_err (dict_get item ''author'' (JObj [])) (\<lambda>a.
     bind_err (dict_get a ''login'' JNull) (\<lambda>user_login.
     if \<not> truthy user_login then
       bind_err (dict_get item ''commit'' (JObj [])) (\<lambda>c.
       bind_err (dict_get c ''author'' (JObj [])) (\<lambda>ca.
       dict_get ca ''name'' (JStr ''unknown'')))
     else Inr user_login))"

text \<open>Lines 71 to 79: the pull-request branch of the loop body.\<close>

definition pulls_branch ::
  "network \<Rightarrow> string option \<Rightarrow> json \<Rightarrow> key \<Rightarrow> stats \<Rightarrow> world \<Rightarrow> (py_error + stats) \<times> world" where
  "pulls_branch net token item k user_stats w =
     (let us1 = stats_modify k (\<lambda>c. c\<lparr>prs := prs c + 1\<rparr>) user_stats in
      case dict_get item ''url'' JNull of
        Inl e \<Rightarrow> (Inl e, w)
      | Inr (JStr u) \<Rightarrow>
          (case requests_get net
                  \<lparr>req_url = FilesUrl (u @ ''/files''), req_params = None,
                   req_headers = auth_headers token\<rparr> w of
             (None, w1) \<Rightarrow> (Inl ConnectionError, w1)
           | (Some pr_response, w1) \<Rightarrow>
               if status_code pr_response = 200 then
                 (case payload pr_response of
                    None \<Rightarrow> (Inl JSONDecodeError, w1)
                  | Some pr_files \<Rightarrow>
                      (case py_iter pr_files of
                         None \<Rightarrow> (Inl TypeError, w1)
                       | Some fs \<Rightarrow>
                           (case sum_changes fs 0 of
                              Inl e \<Rightarrow> (Inl e, w1)
                            | Inr n \<Rightarrow>
                                (Inr (stats_modify k (\<lambda>c. c\<lparr>lines := lines c + n\<rparr>) us1), w1))))
               else (Inr us1, w1))
      | Inr _ \<Rightarrow> (Inl TypeError, w))"

text \<open>Lines 81 to 102: the commit branch of the loop body.\<close>

definition commits_branch ::
  "network \<Rightarrow> string \<Rightarrow> string \<Rightarrow> string option \<Rightarrow> json \<Rightarrow> stats \<Rightarrow> world
   \<Rightarrow> (py_error + stats) \<times> world" where
  "commits_branch net owner repo token item user_stats w =
     (case bind_err (commits_login item) (\<lambda>user_login. ensure_user user_login user_stats) of
        Inl e \<Rightarrow> (Inl e, w)
      | Inr (k, us1) \<Rightarrow>
          (let us2 = stats_modify k (\<lambda>c. c\<lparr>commits := commits c + 1\<rparr>) us1 in
           case dict_get item ''sha'' JNull of
             Inl e \<Rightarrow> (Inl e, w)
           | Inr sha \<Rightarrow>
               (case get_commit_details net owner repo sha token w of
                  (Inl e, w1) \<Rightarrow> (Inl e, w1)
                | (Inr (additions, deletions), w1) \<Rightarrow>
                    (case py_add additions deletions of
                       Inl e \<Rightarrow> (Inl e, w1)
                     | Inr v \<Rightarrow>
                         (case as_int v of
                            None \<Rightarrow> (Inl TypeError, w1)
                          | Some n \<Rightarrow>
                              (Inr (stats_modify k (\<lambda>c. c\<lparr>lines := lines c + n\<rparr>) us2), w1))))))"

text \<open>
  One iteration of the \<^verbatim>\<open>for item in items\<close> loop. With an endpoint other than
  the two, \<^verbatim>\<open>user_login\<close> is read before any assignment.
\<close>

definition item_step ::
  "network \<Rightarrow> string \<Rightarrow> string \<Rightarrow> string \<Rightarrow> string option \<Rightarrow> json \<Rightarrow> stats \<Rightarrow> world
   \<Rightarrow> (py_error + stats) \<times> world" where
  "item_step net owner repo endpoint token item user_stats w =
     (if endpoint = ''pulls'' then
        (case bind_err (pulls_login item) (\<lambda>user_login. ensure_user user_login user_stats) of
           Inl e \<Rightarrow> (Inl e, w)
         | Inr (k, us1) \<Rightarrow> pulls_branch net token item k us1 w)
      else if endpoint = ''commits'' then
        (case bind_err (commits_login item) (\<lambda>user_login. ensure_user user_login user_stats) of
           Inl e \<Rightarrow> (Inl e, w)
         | Inr (k, us1) \<Rightarrow> commits_branch net owner repo token item us1 w)
      else (Inl UnboundLocalError, w))"

fun aggregate ::
  "network \<Rightarrow> string \<Rightarrow> string \<Rightarrow> string \<Rightarrow> string option \<Rightarrow> json list \<Rightarrow> stats \<Rightarrow> world
   \<Rightarrow> (py_error + stats) \<times> world" where
  "aggregate net owner repo endpoint token [] user_stats w = (Inr user_stats, w)"
| "aggregate net owner repo endpoint token (item # rest) user_stats w =
     (case item_step net owner repo endpoint token item user_stats w of
        (Inl e, w1) \<Rightarrow> (Inl e, w1)
      | (Inr us1, w1) \<Rightarrow> aggregate net owner repo endpoint token rest us1 w1)"

definition get_user_stats_per_endpoint ::
  "network \<Rightarrow> string \<Rightarrow> string \<Rightarrow> string \<Rightarrow> string \<Rightarrow> string \<Rightarrow> string option \<Rightarrow> world
   \<Rightarrow> ((py_error + stats) \<times> world) option" where
  "get_user_stats_per_endpoint net owner repo endpoint start_date end_date token w =
     (case get_github_data net owner repo endpoint start_date end_date token w of
        None \<Rightarrow> None
      | Some (Inl e, w1) \<Rightarrow> Some (Inl e, w1)
      | Some (Inr items, w1) \<Rightarrow> Some (aggregate net owner repo endpoint token items [] w1))"

section \<open>main\<close>

text \<open>Lines 127 to 131 and 135 to 139: the two merge loops.\<close>

fun merge_prs :: "stats \<Rightarrow> stats \<Rightarrow> stats" where
  "merge_prs [] user_stats = user_stats"
| "merge_prs ((user, st) # rest) user_stats =
     merge_prs rest
       (stats_modify user (\<lambda>c. c\<lparr>lines := lines c + lines st\<rparr>)
          (stats_modify user (\<lambda>c. c\<lparr>prs := prs st\<rparr>) (ensure_entry user user_stats)))"

fun merge_commits :: "stats \<Rightarrow> stats \<Rightarrow> stats" where
  "merge_commits [] user_stats = user_stats"
| "merge_commits ((user, st) # rest) user_stats =
     merge_commits rest
       (stats_modify user (\<lambda>c. c\<lparr>lines := lines c + lines st\<rparr>)
          (stats_modify user (\<lambda>c. c\<lparr>commits := commits st\<rparr>) (ensure_entry user user_stats)))"

definition merge_stats :: "stats \<Rightarrow> stats \<Rightarrow> stats" where
  "merge_stats pr_stats commit_stats = merge_commits commit_stats (merge_prs pr_stats [])"

text \<open>Lines 122 to 139: both aggregations and their merge.\<close>

definition merged_stats ::
  "network \<Rightarrow> string \<Rightarrow> string \<Rightarrow> string \<Rightarrow> string \<Rightarrow> string option \<Rightarrow> world
   \<Rightarrow> ((py_error + stats) \<times> world) option" where
  "merged_stats net owner repo start_date end_date token w =
     (case get_user_stats_per_endpoint net owner repo ''pulls'' start_date end_date token w of
        None \<Rightarrow> None
      | Some (Inl e, w1) \<Rightarrow> Some (Inl e, w1)
      | Some (Inr pr_stats, w1) \<Rightarrow>
          (case get_user_stats_per_endpoint net owner repo ''commits'' start_date end_date token w1 of
             None \<Rightarrow> None
           | Some (Inl e, w2) \<Rightarrow> Some (Inl e, w2)
           | Some (Inr commit_stats, w2) \<Rightarrow> Some (Inr (merge_stats pr_stats commit_stats), w2)))"

text \<open>
  Line 145: \<^verbatim>\<open>sorted(..., reverse=True)\<close> is stable: CPython reverses the list,
  sorts it stably in ascending order of the key, and reverses the result. Tuples of
  integers compare lexicographically.
\<close>

definition sort_key_of :: "key \<times> counters \<Rightarrow> int \<times> int \<times> int" where
  "sort_key_of x = (prs (snd x), commits (snd x), lines (snd x))"

definition sorted_users :: "stats \<Rightarrow> stats" where
  "sorted_users user_stats = rev (sort_key sort_key_of (rev user_stats))"

text \<open>\<^verbatim>\<open>str\<close> of a key, as the f-string formats it.\<close>

fun str_key :: "key \<Rightarrow> string" where
  "str_key KNone = ''None''"
| "str_key (KBool b) = (if b then ''True'' else ''False'')"
| "str_key (KInt n) = str_int n"
| "str_key (KStr s) = s"

definition format_line :: "key \<times> counters \<Rightarrow> string" where
  "format_line x =
     ''- '' @ str_key (fst x) @ '': '' @ str_int (prs (snd x)) @ '' pull requests, ''
       @ str_int (commits (snd x)) @ '' commits, '' @ str_int (lines (snd x))
       @ '' lines of code changed''"

text \<open>Lines 141 to 152: the report.\<close>

definition report :: "stats \<Rightarrow> world \<Rightarrow> world" where
  "report user_stats w =
     (if user_stats \<noteq> [] then
        fold (\<lambda>x. print (format_line x)) (sorted_users user_stats)
          (print (replicate 50 CHR ''-'') (print (CHR 0x0A # ''Contributor Statistics:'') w))
      else print ''No contributions found between the specified dates.'' w)"

text \<open>
  \<^verbatim>\<open>url.strip().split('/')[-2:]\<close>, unpacked into two names: a ValueError unless
  the slice has two elements.
\<close>

text \<open>
  A character of a text is a code point below 256; \<^verbatim>\<open>str.strip()\<close> removes those
  of which \<^verbatim>\<open>str.isspace\<close> holds.
\<close>

definition is_space :: "char \<Rightarrow> bool" where
  "is_space c = (c \<in> set [CHR 0x09, CHR 0x0A, CHR 0x0B, CHR 0x0C, CHR 0x0D,
                            CHR 0x1C, CHR 0x1D, CHR 0x1E, CHR 0x1F, CHR 0x20,
                            CHR 0x85, CHR 0xA0])"

definition strip :: "string \<Rightarrow> string" where
  "strip s = rev (dropWhile is_space (rev (dropWhile is_space s)))"

fun split :: "char \<Rightarrow> string \<Rightarrow> string list" where
  "split sep [] = [[]]"
| "split sep (c # cs) =
     (if c = sep then [] # split sep cs
      else (case split sep cs of [] \<Rightarrow> [[c]] | p # ps \<Rightarrow> (c # p) # ps))"

definition owner_repo :: "string \<Rightarrow> py_error + string \<times> string" where
  "owner_repo url =
     (let parts = split CHR ''/'' (strip url) in
      case drop (length parts - 2) parts of
        [owner, repo] \<Rightarrow> Inr (owner, repo)
      | _ \<Rightarrow> Inl ValueError)"

text \<open>
  \<^verbatim>\<open>main\<close>, from the four texts read from the console. The parser
  \<^verbatim>\<open>datetime.strptime(s, '%Y-%m-%d').date()\<close> is a parameter: it gives the date
  (as its \<^verbatim>\<open>isoformat()\<close> text), or \<open>None\<close> where it raises ValueError.
\<close>

definition main ::
  "(string \<Rightarrow> string option) \<Rightarrow> network \<Rightarrow> string \<Rightarrow> string \<Rightarrow> string \<Rightarrow> string \<Rightarrow> world
   \<Rightarrow> ((py_error + unit) \<times> world) option" where
  "main strptime net url start_date_str end_date_str token w =
     (case strptime start_date_str of
        None \<Rightarrow> Some (Inr (), print ''Invalid date format. Please use YYYY-MM-DD.'' w)
      | Some start_date \<Rightarrow>
          (case strptime end_date_str of
             None \<Rightarrow> Some (Inr (), print ''Invalid date format. Please use YYYY-MM-DD.'' w)
           | Some end_date \<Rightarrow>
               (case owner_repo url of
                  Inl e \<Rightarrow> Some (Inl e, w)
                | Inr (owner, repo) \<Rightarrow>
                    (case merged_stats net owner repo start_date end_date (Some token) w of
                       None \<Rightarrow> None
                     | Some (Inl e, w1) \<Rightarrow> Some (Inl e, w1)
                     | Some (Inr user_stats, w1) \<Rightarrow> Some (Inr (), report user_stats w1)))))"

section \<open>Inputs for the examples\<close>

text \<open>A response with status 200 whose body is a JSON array.\<close>

definition ok_page :: "json list \<Rightarrow> response" where
  "ok_page xs = \<lparr>status_code = 200, payload = Some (JArr xs)\<rparr>"

definition w0 :: world where
  "w0 = \<lparr>requests = [], printed = [], slept = 0\<rparr>"

definition net_two_pages :: network where
  "net_two_pages i =
     (if i = 0 then Some (ok_page (replicate 100 (JNum 1))) else Some (ok_page [JNum 2, JNum 3]))"




definition net_page_then_404 :: network where
  "net_page_then_404 i =
     (if i = 0 then Some (ok_page (replicate 100 (JNum 1)))
      else Some \<lparr>status_code = 404, payload = None\<rparr>)"

definition stats_a_b :: stats where
  "stats_a_b = [(KStr ''a'', \<lparr>prs = 2, commits = 1, lines = 5\<rparr>),
                (KStr ''b'', \<lparr>prs = 2, commits = 3, lines = 1\<rparr>)]"

text \<open>A dict has each key once.\<close>


definition wf_stats :: "stats \<Rightarrow> bool" where
  "wf_stats d = distinct (map (\<lambda>e. key_norm (fst e)) d)"

definition not_found :: response where
  "not_found = \<lparr>status_code = 404, payload = None\<rparr>"

text \<open>A list page holding one item; every later request receives \<open>detail\<close>.\<close>

definition net_single :: "json \<Rightarrow> response \<Rightarrow> network" where
  "net_single item detail i = (if i = 0 then Some (ok_page [item]) else Some detail)"

definition pr_null_user :: json where
  "pr_null_user =
     JObj [(''url'', JStr ''https://api.github.com/repos/octo/demo/pulls/1''),
           (''user'', JNull)]"


definition commit_null_author :: json where
  "commit_null_author =
     JObj [(''sha'', JStr ''abc123''),
           (''author'', JNull),
           (''commit'', JObj [(''author'', JObj [(''name'', JStr ''Jane Doe'')])])]"


definition pr_alice :: json where
  "pr_alice =
     JObj [(''url'', JStr ''https://api.github.com/repos/octo/demo/pulls/3''),
           (''user'', JObj [(''login'', JStr ''alice'')])]"

definition commit_bob :: json where
  "commit_bob =
     JObj [(''sha'', JStr ''0a1b2c''),
           (''author'', JObj [(''login'', JStr ''bob'')])]"

text \<open>
  One pull request by alice changing 10 lines, then one commit by bob adding 3 lines and
  deleting 4.
\<close>

definition net_activity :: network where
  "net_activity i =
     (if i = 0 then Some (ok_page [pr_alice])
      else if i = 1 then
        Some \<lparr>status_code = 200, payload = Some (JArr [JObj [(''changes'', JNum 10)]])\<rparr>
      else if i = 2 then Some (ok_page [commit_bob])
      else
        Some \<lparr>status_code = 200,
              payload = Some (JObj [(''stats'',
                          JObj [(''additions'', JNum 3), (''deletions'', JNum 4)])])\<rparr>)"


section \<open>The pagination loop\<close>

lemma loop_full_page:
  assumes "net (length (requests w)) = Some (ok_page pg)" "per_page ps \<le> length pg"
  shows "get_github_data_loop net u ps h items p w =
     get_github_data_loop net u ps h (items @ pg) (Suc p)
       (w\<lparr>requests := requests w @ [page_request u ps h p]\<rparr>)"
  using assms by (subst get_github_data_loop.simps) (simp add: requests_get_def ok_page_def)

lemma loop_full_pages:
  "(\<forall>i < length pgs. net (length (requests w) + i) = Some (ok_page (pgs ! i))
       \<and> per_page ps \<le> length (pgs ! i)) \<Longrightarrow>
   get_github_data_loop net u ps h items p w =
   get_github_data_loop net u ps h (items @ concat pgs) (p + length pgs)
     (w\<lparr>requests := requests w @ map (page_request u ps h) [p ..< p + length pgs]\<rparr>)"
proof (induction pgs arbitrary: items p w)
  case Nil
  then show ?case by simp
next
  case (Cons pg pgs)
  let ?w1 = "w\<lparr>requests := requests w @ [page_request u ps h p]\<rparr>"
  from Cons.prems [rule_format, of 0]
  have h0: "net (length (requests w)) = Some (ok_page pg)" "per_page ps \<le> length pg"
    by simp_all
  have h1: "\<forall>i < length pgs. net (length (requests ?w1) + i) = Some (ok_page (pgs ! i))
          \<and> per_page ps \<le> length (pgs ! i)"
  proof (intro allI impI)
    fix i assume "i < length pgs"
    with Cons.prems [rule_format, of "Suc i"] show
      "net (length (requests ?w1) + i) = Some (ok_page (pgs ! i)) \<and> per_page ps \<le> length (pgs ! i)"
      by simp
  qed
  have upt: "[p ..< p + length (pg # pgs)] = p # [Suc p ..< Suc p + length pgs]"
  proof -
    have "p < p + length (pg # pgs)" by simp
    from upt_conv_Cons [OF this] show ?thesis by simp
  qed
  show ?case
    unfolding loop_full_page [where net = net and w = w, OF h0] Cons.IH [OF h1] upt by simp
qed




lemma loop_last_page:
  assumes "net (length (requests w)) = Some (ok_page pg)" "length pg < per_page ps"
  shows "get_github_data_loop net u ps h items p w =
     Some (Inr (items @ pg), w\<lparr>requests := requests w @ [page_request u ps h p]\<rparr>)"
  using assms by (subst get_github_data_loop.simps) (simp add: requests_get_def ok_page_def)

lemma loop_failed:
  assumes "net (length (requests w)) = Some r" "status_code r \<noteq> 200" "status_code r \<noteq> 403"
  shows "get_github_data_loop net u ps h items p w =
     Some (Inr items, w\<lparr>requests := requests w @ [page_request u ps h p],
          printed := printed w @ [''API request failed: '' @ str_int (status_code r)]\<rparr>)"
  using assms by (subst get_github_data_loop.simps) (simp add: requests_get_def print_def)




lemma length_concat_const:
  "\<forall>x \<in> set xs. length x = n \<Longrightarrow> length (concat xs) = n * length xs"
  by (induction xs) simp_all

text \<open>
  C1: when the replies are \<open>k\<close> pages of exactly 100 items followed by one page of
  fewer than 100 items, \<^verbatim>\<open>get_github_data\<close> returns the pages' items concatenated in
  order, \<open>100k + m\<close> of them, and issues \<open>k + 1\<close> requests and no other: each
  goes to the list URL with the date range and \<^verbatim>\<open>per_page\<close> 100, and their
  \<^verbatim>\<open>page\<close> parameters are \<open>1, \<dots>, k + 1\<close> in this order. With \<open>k = 0\<close>
  this is the single request for page 1, whose items are returned as they are.
\<close>

theorem paged_fetch_full_then_short:
  assumes "\<forall>i < length pgs. net (length (requests w) + i) = Some (ok_page (pgs ! i))
             \<and> length (pgs ! i) = 100"
    and "net (length (requests w) + length pgs) = Some (ok_page lst)"
    and "length lst < 100"
  shows "get_github_data net owner repo endpoint start_date end_date token w =
           Some (Inr (concat pgs @ lst),
                 w\<lparr>requests := requests w @
                      map (\<lambda>p. \<lparr>req_url = RepoUrl owner repo endpoint,
                                req_params =
                                  Some \<lparr>since = start_date @ ''T00:00:00Z'',
                                        until = end_date @ ''T23:59:59Z'',
                                        per_page = 100, page = Some p\<rparr>,
                                req_headers = auth_headers token\<rparr>)
                        [1 ..< length pgs + 2]\<rparr>)
         \<and> length (concat pgs @ lst) = 100 * length pgs + length lst
         \<and> length [1 ..< length pgs + 2] = length pgs + 1
         \<and> (pgs = [] \<longrightarrow>
              get_github_data net owner repo endpoint start_date end_date token w =
                Some (Inr lst,
                      w\<lparr>requests := requests w @
                           [\<lparr>req_url = RepoUrl owner repo endpoint,
                             req_params =
                               Some \<lparr>since = start_date @ ''T00:00:00Z'',
                                     until = end_date @ ''T23:59:59Z'',
                                     per_page = 100, page = Some 1\<rparr>,
                             req_headers = auth_headers token\<rparr>]\<rparr>))"
proof -
  let ?u = "RepoUrl owner repo endpoint"
  let ?ps = "list_params start_date end_date"
  let ?h = "auth_headers token"
  let ?w1 = "w\<lparr>requests := requests w @ map (page_request ?u ?ps ?h) [1 ..< 1 + length pgs]\<rparr>"
  have pp: "per_page ?ps = 100" by (simp add: list_params_def)
  have full: "\<forall>i < length pgs. net (length (requests w) + i) = Some (ok_page (pgs ! i))
       \<and> per_page ?ps \<le> length (pgs ! i)"
    using assms(1) pp by simp
  have a: "get_github_data_loop net ?u ?ps ?h [] 1 w =
        get_github_data_loop net ?u ?ps ?h (concat pgs) (1 + length pgs) ?w1"
    using loop_full_pages [OF full, of ?u ?h "[]" 1] by simp
  have "length [1 ..< 1 + length pgs] = length pgs"
    unfolding length_upt by simp
  then have "length (requests ?w1) = length (requests w) + length pgs"
    by simp
  with assms(2) have l: "net (length (requests ?w1)) = Some (ok_page lst)"
    by metis
  have lt: "length lst < per_page ?ps"
    using assms(3) pp by simp
  have b: "get_github_data_loop net ?u ?ps ?h (concat pgs) (1 + length pgs) ?w1 =
        Some (Inr (concat pgs @ lst),
              ?w1\<lparr>requests := requests ?w1 @ [page_request ?u ?ps ?h (1 + length pgs)]\<rparr>)"
    by (rule loop_last_page [where net = net and w = ?w1, OF l lt])
  have upt: "[1 ..< length pgs + 2] = [1 ..< 1 + length pgs] @ [1 + length pgs]"
    using upt_Suc_append [of 1 "1 + length pgs"] by simp
  have "\<forall>x \<in> set pgs. length x = 100"
    using assms(1) by (auto simp: in_set_conv_nth)
  then have len: "length (concat pgs) = 100 * length pgs"
    by (rule length_concat_const)
  have c: "length [1 ..< length pgs + 2] = length pgs + 1"
    unfolding length_upt by simp
  have run: "get_github_data net owner repo endpoint start_date end_date token w =
           Some (Inr (concat pgs @ lst),
                 w\<lparr>requests := requests w @
                      map (\<lambda>p. \<lparr>req_url = RepoUrl owner repo endpoint,
                                req_params =
                                  Some \<lparr>since = start_date @ ''T00:00:00Z'',
                                        until = end_date @ ''T23:59:59Z'',
                                        per_page = 100, page = Some p\<rparr>,
                                req_headers = auth_headers token\<rparr>)
                        [1 ..< length pgs + 2]\<rparr>)"
    unfolding get_github_data_def a b upt
    by (simp del: upt_Suc add: page_request_def list_params_def)
  have one: "[1 ..< length ([] :: json list list) + 2] = [1::nat]"
    by (simp add: upt_rec)
  have single: "pgs = [] \<longrightarrow>
              get_github_data net owner repo endpoint start_date end_date token w =
                Some (Inr lst,
                      w\<lparr>requests := requests w @
                           [\<lparr>req_url = RepoUrl owner repo endpoint,
                             req_params =
                               Some \<lparr>since = start_date @ ''T00:00:00Z'',
                                     until = end_date @ ''T23:59:59Z'',
                                     per_page = 100, page = Some 1\<rparr>,
                             req_headers = auth_headers token\<rparr>]\<rparr>)"
  proof
    assume e: "pgs = []"
    show "get_github_data net owner repo endpoint start_date end_date token w =
                Some (Inr lst,
                      w\<lparr>requests := requests w @
                           [\<lparr>req_url = RepoUrl owner repo endpoint,
                             req_params =
                               Some \<lparr>since = start_date @ ''T00:00:00Z'',
                                     until = end_date @ ''T23:59:59Z'',
                                     per_page = 100, page = Some 1\<rparr>,
                             req_headers = auth_headers token\<rparr>]\<rparr>)"
      using run unfolding e one by simp
  qed
  from run len c single show ?thesis by simp
qed

theorem paged_fetch_full_then_short_witness:
  "net_two_pages 0 = Some (ok_page (replicate 100 (JNum 1)))
   \<and> net_two_pages 1 = Some (ok_page [JNum 2, JNum 3])
   \<and> get_github_data net_two_pages ''octo'' ''demo'' ''pulls'' ''2024-01-01'' ''2024-01-31'' None w0 =
       Some (Inr (replicate 100 (JNum 1) @ [JNum 2, JNum 3]),
             \<lparr>requests =
                [\<lparr>req_url = RepoUrl ''octo'' ''demo'' ''pulls'',
                  req_params = Some \<lparr>since = ''2024-01-01T00:00:00Z'',
                                      until = ''2024-01-31T23:59:59Z'',
                                      per_page = 100, page = Some 1\<rparr>,
                  req_headers = None\<rparr>,
                 \<lparr>req_url = RepoUrl ''octo'' ''demo'' ''pulls'',
                  req_params = Some \<lparr>since = ''2024-01-01T00:00:00Z'',
                                      until = ''2024-01-31T23:59:59Z'',
                                      per_page = 100, page = Some 2\<rparr>,
                  req_headers = None\<rparr>],
              printed = [], slept = 0\<rparr>)
   \<and> length (replicate 100 (JNum 1) @ [JNum 2, JNum 3]) = (102::nat)
   \<and> get_github_data (net_single (JNum 7) not_found) ''octo'' ''demo'' ''pulls''
         ''2024-01-01'' ''2024-01-31'' None w0 =
       Some (Inr [JNum 7],
             \<lparr>requests =
                [\<lparr>req_url = RepoUrl ''octo'' ''demo'' ''pulls'',
                  req_params = Some \<lparr>since = ''2024-01-01T00:00:00Z'',
                                      until = ''2024-01-31T23:59:59Z'',
                                      per_page = 100, page = Some 1\<rparr>,
                  req_headers = None\<rparr>],
              printed = [], slept = 0\<rparr>)"
proof -
  have h1: "\<forall>i < length [replicate 100 (JNum 1)].
      net_two_pages (length (requests w0) + i) = Some (ok_page ([replicate 100 (JNum 1)] ! i))
        \<and> length ([replicate 100 (JNum 1)] ! i) = 100"
    by (simp add: net_two_pages_def w0_def)
  have h2: "net_two_pages (length (requests w0) + length [replicate 100 (JNum 1)])
       = Some (ok_page [JNum 2, JNum 3])"
    by (simp add: net_two_pages_def w0_def)
  have h3: "length [JNum 2, JNum 3] < (100::nat)" by simp
  have u: "[1 ..< length [replicate 100 (JNum 1)] + 2] = [1, 2::nat]"
    by (simp add: upt_rec)
  note t = paged_fetch_full_then_short [OF h1 h2 h3, of "''octo''" "''demo''" "''pulls''"
      "''2024-01-01''" "''2024-01-31''" None]
  from t [THEN conjunct1]
  have "get_github_data net_two_pages ''octo'' ''demo'' ''pulls'' ''2024-01-01'' ''2024-01-31'' None w0 =
       Some (Inr (replicate 100 (JNum 1) @ [JNum 2, JNum 3]),
             \<lparr>requests =
                [\<lparr>req_url = RepoUrl ''octo'' ''demo'' ''pulls'',
                  req_params = Some \<lparr>since = ''2024-01-01T00:00:00Z'',
                                      until = ''2024-01-31T23:59:59Z'',
                                      per_page = 100, page = Some 1\<rparr>,
                  req_headers = None\<rparr>,
                 \<lparr>req_url = RepoUrl ''octo'' ''demo'' ''pulls'',
                  req_params = Some \<lparr>since = ''2024-01-01T00:00:00Z'',
                                      until = ''2024-01-31T23:59:59Z'',
                                      per_page = 100, page = Some 2\<rparr>,
                  req_headers = None\<rparr>],
              printed = [], slept = 0\<rparr>)"
    unfolding u by (simp add: w0_def auth_headers_def)
  moreover from t [THEN conjunct2, THEN conjunct1]
  have "length (replicate 100 (JNum 1) @ [JNum 2, JNum 3]) = (102::nat)"
    by simp
  moreover have "net_two_pages 0 = Some (ok_page (replicate 100 (JNum 1)))"
    and "net_two_pages 1 = Some (ok_page [JNum 2, JNum 3])"
    by (simp_all add: net_two_pages_def)
  moreover have "get_github_data (net_single (JNum 7) not_found) ''octo'' ''demo'' ''pulls''
         ''2024-01-01'' ''2024-01-31'' None w0 =
       Some (Inr [JNum 7],
             \<lparr>requests =
                [\<lparr>req_url = RepoUrl ''octo'' ''demo'' ''pulls'',
                  req_params = Some \<lparr>since = ''2024-01-01T00:00:00Z'',
                                      until = ''2024-01-31T23:59:59Z'',
                                      per_page = 100, page = Some 1\<rparr>,
                  req_headers = None\<rparr>],
              printed = [], slept = 0\<rparr>)"
  proof -
    have e1: "\<forall>i < length ([] :: json list list).
        net_single (JNum 7) not_found (length (requests w0) + i) = Some (ok_page ([] ! i))
          \<and> length (([] :: json list list) ! i) = 100"
      by simp
    have e2: "net_single (JNum 7) not_found (length (requests w0) + length ([] :: json list list))
        = Some (ok_page [JNum 7])"
      by (simp add: net_single_def w0_def)
    have e3: "length [JNum 7] < (100::nat)" by simp
    from paged_fetch_full_then_short [OF e1 e2 e3, of "''octo''" "''demo''" "''pulls''"
        "''2024-01-01''" "''2024-01-31''" None,
        THEN conjunct2, THEN conjunct2, THEN conjunct2]
    show ?thesis
      by (simp add: w0_def auth_headers_def)
  qed
  ultimately show ?thesis by blast
qed



text \<open>
  C7: a reply whose status is neither 200 nor 403 ends the loop: the failure is
  printed, and the call returns normally the items of the pages fetched before it.
\<close>

theorem failed_request_returns_accumulated:
  assumes "\<forall>i < length pgs. net (length (requests w) + i) = Some (ok_page (pgs ! i))
             \<and> 100 \<le> length (pgs ! i)"
    and "net (length (requests w) + length pgs) = Some r"
    and "status_code r \<noteq> 200" and "status_code r \<noteq> 403"
  shows "get_github_data net owner repo endpoint start_date end_date token w =
           Some (Inr (concat pgs),
                 w\<lparr>requests := requests w @
                      map (page_request (RepoUrl owner repo endpoint)
                             (list_params start_date end_date) (auth_headers token))
                        [1 ..< length pgs + 2],
                    printed := printed w @
                      [''API request failed: '' @ str_int (status_code r)]\<rparr>)"
proof -
  let ?u = "RepoUrl owner repo endpoint"
  let ?ps = "list_params start_date end_date"
  let ?h = "auth_headers token"
  let ?w1 = "w\<lparr>requests := requests w @ map (page_request ?u ?ps ?h) [1 ..< 1 + length pgs]\<rparr>"
  have pp: "per_page ?ps = 100" by (simp add: list_params_def)
  have full: "\<forall>i < length pgs. net (length (requests w) + i) = Some (ok_page (pgs ! i))
       \<and> per_page ?ps \<le> length (pgs ! i)"
    using assms(1) pp by simp
  have a: "get_github_data_loop net ?u ?ps ?h [] 1 w =
        get_github_data_loop net ?u ?ps ?h (concat pgs) (1 + length pgs) ?w1"
    using loop_full_pages [OF full, of ?u ?h "[]" 1] by simp
  have "length [1 ..< 1 + length pgs] = length pgs"
    unfolding length_upt by simp
  then have "length (requests ?w1) = length (requests w) + length pgs"
    by simp
  with assms(2) have l: "net (length (requests ?w1)) = Some r"
    by metis
  have upt: "[1 ..< length pgs + 2] = [1 ..< 1 + length pgs] @ [1 + length pgs]"
    using upt_Suc_append [of 1 "1 + length pgs"] by simp
  show ?thesis
    unfolding get_github_data_def a upt
      loop_failed [where net = net and w = ?w1, OF l assms(3) assms(4)]
    by (simp del: upt_Suc)
qed

theorem failed_request_returns_accumulated_witness:
  "net_page_then_404 0 = Some (ok_page (replicate 100 (JNum 1)))
   \<and> net_page_then_404 1 = Some \<lparr>status_code = 404, payload = None\<rparr>
   \<and> get_github_data net_page_then_404 ''octo'' ''demo'' ''pulls'' ''2024-01-01'' ''2024-01-31'' None w0 =
       Some (Inr (replicate 100 (JNum 1)),
             \<lparr>requests =
                [page_request (RepoUrl ''octo'' ''demo'' ''pulls'')
                   (list_params ''2024-01-01'' ''2024-01-31'') None 1,
                 page_request (RepoUrl ''octo'' ''demo'' ''pulls'')
                   (list_params ''2024-01-01'' ''2024-01-31'') None 2],
              printed = [''API request failed: 404''], slept = 0\<rparr>)"
proof -
  let ?r = "\<lparr>status_code = 404, payload = None\<rparr>"
  have h1: "\<forall>i < length [replicate 100 (JNum 1)].
      net_page_then_404 (length (requests w0) + i) = Some (ok_page ([replicate 100 (JNum 1)] ! i))
        \<and> 100 \<le> length ([replicate 100 (JNum 1)] ! i)"
    by (simp add: net_page_then_404_def w0_def)
  have h2: "net_page_then_404 (length (requests w0) + length [replicate 100 (JNum 1)]) = Some ?r"
    by (simp add: net_page_then_404_def w0_def)
  have h3: "status_code ?r \<noteq> 200" by simp
  have h4: "status_code ?r \<noteq> 403" by simp
  have u: "[1 ..< length [replicate 100 (JNum 1)] + 2] = [1, 2::nat]"
    by (simp add: upt_rec)
  have s: "str_int 404 = ''404''" by code_simp
  from failed_request_returns_accumulated [OF h1 h2 h3 h4, of "''octo''" "''demo''" "''pulls''"
      "''2024-01-01''" "''2024-01-31''" None]
  have "get_github_data net_page_then_404 ''octo'' ''demo'' ''pulls'' ''2024-01-01'' ''2024-01-31'' None w0 =
       Some (Inr (replicate 100 (JNum 1)),
             \<lparr>requests =
                [page_request (RepoUrl ''octo'' ''demo'' ''pulls'')
                   (list_params ''2024-01-01'' ''2024-01-31'') None 1,
                 page_request (RepoUrl ''octo'' ''demo'' ''pulls'')
                   (list_params ''2024-01-01'' ''2024-01-31'') None 2],
              printed = [''API request failed: 404''], slept = 0\<rparr>)"
    unfolding u by (simp add: w0_def auth_headers_def s)
  moreover have "net_page_then_404 0 = Some (ok_page (replicate 100 (JNum 1)))"
    and "net_page_then_404 1 = Some \<lparr>status_code = 404, payload = None\<rparr>"
    by (simp_all add: net_page_then_404_def)
  ultimately show ?thesis by blast
qed

section \<open>The report\<close>

lemma printed_fold_print:
  "printed (fold (\<lambda>x. print (f x)) xs w) = printed w @ map f xs"
  by (induction xs arbitrary: w) (simp_all add: print_def)

lemma sorted_users_desc:
  "sorted_wrt (\<lambda>x y. sort_key_of y \<le> sort_key_of x) (sorted_users user_stats)"
proof -
  have "sorted (map sort_key_of (sort_key sort_key_of (rev user_stats)))"
    by (rule sorted_sort_key)
  then have "sorted_wrt (\<lambda>x y. sort_key_of x \<le> sort_key_of y) (sort_key sort_key_of (rev user_stats))"
    by (simp add: sorted_wrt_map)
  then show ?thesis
    by (simp add: sorted_users_def sorted_wrt_rev)
qed

lemma sort_key_of_le:
  "sort_key_of y \<le> sort_key_of x \<longleftrightarrow>
     prs (snd y) < prs (snd x)
     \<or> prs (snd y) = prs (snd x)
        \<and> (commits (snd y) < commits (snd x)
            \<or> commits (snd y) = commits (snd x) \<and> lines (snd y) \<le> lines (snd x))"
  by (auto simp: sort_key_of_def less_eq_prod_def)

text \<open>
  C3: the rows of the report are the entries of the merged mapping in descending
  lexicographic order of (pull requests, commits, lines): a row comes before another
  when it has more pull requests, or as many and more commits, or as many of both and at
  least as many lines. The example of the claim puts \<open>b\<close> before \<open>a\<close>.
\<close>

theorem report_sorted_descending:
  "sorted_wrt
     (\<lambda>x y. prs (snd y) < prs (snd x)
        \<or> prs (snd y) = prs (snd x)
           \<and> (commits (snd y) < commits (snd x)
               \<or> commits (snd y) = commits (snd x) \<and> lines (snd y) \<le> lines (snd x)))
     (sorted_users user_stats)
   \<and> mset (sorted_users user_stats) = mset user_stats
   \<and> drop (length (printed w) + 2) (printed (report user_stats w))
       = map format_line (sorted_users user_stats)
   \<and> sorted_users [(KStr ''a'', \<lparr>prs = 2, commits = 1, lines = 5\<rparr>),
                     (KStr ''b'', \<lparr>prs = 2, commits = 3, lines = 1\<rparr>)]
       = [(KStr ''b'', \<lparr>prs = 2, commits = 3, lines = 1\<rparr>),
          (KStr ''a'', \<lparr>prs = 2, commits = 1, lines = 5\<rparr>)]"
proof (intro conjI)
  show "sorted_wrt
     (\<lambda>x y. prs (snd y) < prs (snd x)
        \<or> prs (snd y) = prs (snd x)
           \<and> (commits (snd y) < commits (snd x)
               \<or> commits (snd y) = commits (snd x) \<and> lines (snd y) \<le> lines (snd x)))
     (sorted_users user_stats)"
    using sorted_users_desc [of user_stats] unfolding sort_key_of_le .
  show "mset (sorted_users user_stats) = mset user_stats"
    by (simp add: sorted_users_def)
  show "drop (length (printed w) + 2) (printed (report user_stats w))
       = map format_line (sorted_users user_stats)"
    by (simp add: report_def printed_fold_print print_def sorted_users_def)
  show "sorted_users [(KStr ''a'', \<lparr>prs = 2, commits = 1, lines = 5\<rparr>),
                      (KStr ''b'', \<lparr>prs = 2, commits = 3, lines = 1\<rparr>)]
       = [(KStr ''b'', \<lparr>prs = 2, commits = 3, lines = 1\<rparr>),
          (KStr ''a'', \<lparr>prs = 2, commits = 1, lines = 5\<rparr>)]"
    by (simp add: sorted_users_def sort_key_of_def less_eq_prod_def)
qed

text \<open>
  C9: for an empty mapping the report is the one line
  \<^verbatim>\<open>No contributions found between the specified dates.\<close> and no row; otherwise it
  is the two header lines followed by one row for each contributor, of the form
  \<^verbatim>\<open>- {user}: {prs} pull requests, {commits} commits, {lines} lines of code changed\<close>.
\<close>

theorem report_lines:
  "printed (report user_stats w) =
     printed w @
     (if user_stats = [] then [''No contributions found between the specified dates.'']
      else [CHR 0x0A # ''Contributor Statistics:'', replicate 50 CHR ''-''] @
           map (\<lambda>(user, st).
                  ''- '' @ str_key user @ '': '' @ str_int (prs st) @ '' pull requests, ''
                    @ str_int (commits st) @ '' commits, '' @ str_int (lines st)
                    @ '' lines of code changed'')
             (sorted_users user_stats))
   \<and> length (sorted_users user_stats) = length user_stats"
  by (simp add: report_def printed_fold_print print_def format_line_def case_prod_beta
      sorted_users_def)

theorem report_lines_witness:
  "printed (report [] w0) = [''No contributions found between the specified dates.'']
   \<and> printed (report stats_a_b w0) =
       [CHR 0x0A # ''Contributor Statistics:'',
        ''--------------------------------------------------'',
        ''- b: 2 pull requests, 3 commits, 1 lines of code changed'',
        ''- a: 2 pull requests, 1 commits, 5 lines of code changed'']"
proof -
  have s: "sorted_users stats_a_b = rev stats_a_b"
    by (simp add: sorted_users_def stats_a_b_def sort_key_of_def less_eq_prod_def)
  have n: "str_int 1 = ''1''" "str_int 2 = ''2''" "str_int 3 = ''3''" "str_int 5 = ''5''"
    by code_simp+
  have d: "replicate 50 CHR ''-'' = ''--------------------------------------------------''"
    by code_simp
  have ne: "stats_a_b \<noteq> []" by (simp add: stats_a_b_def)
  from report_lines [of "[]" w0] have a: "printed (report [] w0) = [''No contributions found between the specified dates.'']"
    by (simp add: w0_def)
  from report_lines [of stats_a_b w0] ne have "printed (report stats_a_b w0) =
       [CHR 0x0A # ''Contributor Statistics:'',
        ''--------------------------------------------------'',
        ''- b: 2 pull requests, 3 commits, 1 lines of code changed'',
        ''- a: 2 pull requests, 1 commits, 5 lines of code changed'']"
    unfolding s d by (simp add: w0_def stats_a_b_def n)
  with a show ?thesis by blast
qed

section \<open>The statistics dict\<close>

lemma key_eq_refl [simp]: "key_eq k k"
  by (simp add: key_eq_def)

lemma stats_get_None_iff:
  "stats_get d k = None \<longleftrightarrow> key_norm k \<notin> set (map (\<lambda>e. key_norm (fst e)) d)"
  by (induction d k rule: stats_get.induct) (auto simp: key_eq_def)

lemma stats_get_modify:
  "stats_get (stats_modify k f d) k' =
     (if key_eq k k' then map_option f (stats_get d k') else stats_get d k')"
  by (induction d) (auto simp: key_eq_def)

lemma stats_get_append:
  "stats_get (d @ e) k = (case stats_get d k of None \<Rightarrow> stats_get e k | Some c \<Rightarrow> Some c)"
  by (induction d) auto

lemma stats_get_ensure:
  "stats_get (ensure_entry k d) k' =
     (if key_eq k k' \<and> stats_get d k' = None then Some zero_counters else stats_get d k')"
proof (cases "stats_get d k")
  case None
  then have "stats_get d k' = None" if "key_eq k k'"
    using that by (simp add: stats_get_None_iff key_eq_def)
  with None show ?thesis
    by (auto simp: ensure_entry_def stats_get_append key_eq_def split: option.splits)
next
  case (Some c)
  then have "stats_get d k \<noteq> None" by simp
  then have "stats_get d k' \<noteq> None" if "key_eq k k'"
    using that unfolding stats_get_None_iff by (simp add: key_eq_def)
  with Some show ?thesis
    by (auto simp: ensure_entry_def)
qed

lemma keys_modify [simp]: "map fst (stats_modify k f d) = map fst d"
  by (induction d) auto

lemma wf_modify [simp]: "wf_stats (stats_modify k f d) = wf_stats d"
proof -
  have "map (\<lambda>e. key_norm (fst e)) (stats_modify k f d) = map key_norm (map fst (stats_modify k f d))"
    by (simp only: map_map comp_def)
  also have "\<dots> = map (\<lambda>e. key_norm (fst e)) d"
    by (simp add: comp_def)
  finally show ?thesis by (simp add: wf_stats_def)
qed

lemma wf_ensure: "wf_stats d \<Longrightarrow> wf_stats (ensure_entry k d)"
  by (auto simp: wf_stats_def ensure_entry_def stats_get_None_iff)

lemma wf_merge_prs: "wf_stats us \<Longrightarrow> wf_stats (merge_prs ps us)"
  by (induction ps us rule: merge_prs.induct) (simp_all add: wf_ensure)

lemma wf_merge_commits: "wf_stats us \<Longrightarrow> wf_stats (merge_commits cs us)"
  by (induction cs us rule: merge_commits.induct) (simp_all add: wf_ensure)

lemma stats_get_merge_prs:
  "wf_stats ps \<Longrightarrow>
   stats_get (merge_prs ps us) k =
     (case stats_get ps k of
        None \<Rightarrow> stats_get us k
      | Some st \<Rightarrow>
          (case stats_get us k of
             None \<Rightarrow> Some (zero_counters\<lparr>prs := prs st, lines := lines st\<rparr>)
           | Some c \<Rightarrow> Some (c\<lparr>prs := prs st, lines := lines c + lines st\<rparr>)))"
proof (induction ps us rule: merge_prs.induct)
  case (1 us)
  then show ?case by simp
next
  case (2 user st rest us)
  from "2.prems" have wf: "wf_stats rest" and new: "stats_get rest user = None"
    by (simp_all add: wf_stats_def stats_get_None_iff)
  show ?case
  proof (cases "key_eq user k")
    case True
    then have "key_norm k = key_norm user" by (simp add: key_eq_def)
    then have "stats_get rest k = None"
      using new by (simp add: stats_get_None_iff)
    with True show ?thesis
      by (simp add: "2.IH" [OF wf] stats_get_modify stats_get_ensure zero_counters_def key_eq_def
          split: option.splits)
  next
    case False
    then have "\<not> key_eq k user" by (auto simp: key_eq_def)
    with False show ?thesis
      by (simp add: "2.IH" [OF wf] stats_get_modify stats_get_ensure split: option.splits)
  qed
qed

lemma stats_get_merge_commits:
  "wf_stats cs \<Longrightarrow>
   stats_get (merge_commits cs us) k =
     (case stats_get cs k of
        None \<Rightarrow> stats_get us k
      | Some st \<Rightarrow>
          (case stats_get us k of
             None \<Rightarrow> Some (zero_counters\<lparr>commits := commits st, lines := lines st\<rparr>)
           | Some c \<Rightarrow> Some (c\<lparr>commits := commits st, lines := lines c + lines st\<rparr>)))"
proof (induction cs us rule: merge_commits.induct)
  case (1 us)
  then show ?case by simp
next
  case (2 user st rest us)
  from "2.prems" have wf: "wf_stats rest" and new: "stats_get rest user = None"
    by (simp_all add: wf_stats_def stats_get_None_iff)
  show ?case
  proof (cases "key_eq user k")
    case True
    then have "key_norm k = key_norm user" by (simp add: key_eq_def)
    then have "stats_get rest k = None"
      using new by (simp add: stats_get_None_iff)
    with True show ?thesis
      by (simp add: "2.IH" [OF wf] stats_get_modify stats_get_ensure zero_counters_def key_eq_def
          split: option.splits)
  next
    case False
    then have "\<not> key_eq k user" by (auto simp: key_eq_def)
    with False show ?thesis
      by (simp add: "2.IH" [OF wf] stats_get_modify stats_get_ensure split: option.splits)
  qed
qed

text \<open>
  C2: the merge of two dicts has each contributor of either once; the pull-request
  count comes from the pull-request dict, the commit count from the commit dict, the
  lines are the sum of the two, and a contributor missing from one dict counts zero there.
\<close>

theorem merge_is_union_of_keys:
  assumes "wf_stats pr_stats" and "wf_stats commit_stats"
  shows "stats_get (merge_stats pr_stats commit_stats) user =
     (case (stats_get pr_stats user, stats_get commit_stats user) of
        (None, None) \<Rightarrow> None
      | (Some p, None) \<Rightarrow> Some \<lparr>prs = prs p, commits = 0, lines = lines p\<rparr>
      | (None, Some c) \<Rightarrow> Some \<lparr>prs = 0, commits = commits c, lines = lines c\<rparr>
      | (Some p, Some c) \<Rightarrow>
          Some \<lparr>prs = prs p, commits = commits c, lines = lines p + lines c\<rparr>)
     \<and> wf_stats (merge_stats pr_stats commit_stats)"
proof
  show "stats_get (merge_stats pr_stats commit_stats) user =
     (case (stats_get pr_stats user, stats_get commit_stats user) of
        (None, None) \<Rightarrow> None
      | (Some p, None) \<Rightarrow> Some \<lparr>prs = prs p, commits = 0, lines = lines p\<rparr>
      | (None, Some c) \<Rightarrow> Some \<lparr>prs = 0, commits = commits c, lines = lines c\<rparr>
      | (Some p, Some c) \<Rightarrow>
          Some \<lparr>prs = prs p, commits = commits c, lines = lines p + lines c\<rparr>)"
    unfolding merge_stats_def
    by (simp add: stats_get_merge_commits [OF assms(2)] stats_get_merge_prs [OF assms(1)]
        zero_counters_def split: option.splits)
  have "wf_stats []" by (simp add: wf_stats_def)
  then show "wf_stats (merge_stats pr_stats commit_stats)"
    unfolding merge_stats_def by (intro wf_merge_commits wf_merge_prs)
qed

theorem merge_is_union_of_keys_witness:
  "wf_stats [(KStr ''alice'', \<lparr>prs = 3, commits = 0, lines = 10\<rparr>)]
   \<and> wf_stats [(KStr ''alice'', \<lparr>prs = 0, commits = 5, lines = 7\<rparr>)]
   \<and> stats_get (merge_stats [(KStr ''alice'', \<lparr>prs = 3, commits = 0, lines = 10\<rparr>)]
                   [(KStr ''alice'', \<lparr>prs = 0, commits = 5, lines = 7\<rparr>)]) (KStr ''alice'')
       = Some \<lparr>prs = 3, commits = 5, lines = 17\<rparr>
   \<and> merge_stats [(KStr ''alice'', \<lparr>prs = 3, commits = 0, lines = 10\<rparr>)]
                   [(KStr ''alice'', \<lparr>prs = 0, commits = 5, lines = 7\<rparr>)]
       = [(KStr ''alice'', \<lparr>prs = 3, commits = 5, lines = 17\<rparr>)]"
proof -
  have h1: "wf_stats [(KStr ''alice'', \<lparr>prs = 3, commits = 0, lines = 10\<rparr>)]"
    by (simp add: wf_stats_def)
  have h2: "wf_stats [(KStr ''alice'', \<lparr>prs = 0, commits = 5, lines = 7\<rparr>)]"
    by (simp add: wf_stats_def)
  from merge_is_union_of_keys [OF h1 h2, of "KStr ''alice''"]
  have a: "stats_get (merge_stats [(KStr ''alice'', \<lparr>prs = 3, commits = 0, lines = 10\<rparr>)]
                   [(KStr ''alice'', \<lparr>prs = 0, commits = 5, lines = 7\<rparr>)]) (KStr ''alice'')
       = Some \<lparr>prs = 3, commits = 5, lines = 17\<rparr>"
    by simp
  have b: "merge_stats [(KStr ''alice'', \<lparr>prs = 3, commits = 0, lines = 10\<rparr>)]
                   [(KStr ''alice'', \<lparr>prs = 0, commits = 5, lines = 7\<rparr>)]
       = [(KStr ''alice'', \<lparr>prs = 3, commits = 5, lines = 17\<rparr>)]"
    by (simp add: merge_stats_def ensure_entry_def zero_counters_def)
  from h1 h2 a b show ?thesis by blast
qed

section \<open>Contributor identity\<close>

lemma get_github_data_single_page:
  assumes "net (length (requests w)) = Some (ok_page pg)" and "length pg < 100"
  shows "get_github_data net owner repo endpoint start_date end_date token w =
     Some (Inr pg,
           w\<lparr>requests := requests w @
                [page_request (RepoUrl owner repo endpoint) (list_params start_date end_date)
                   (auth_headers token) 1]\<rparr>)"
proof -
  have lt: "length pg < per_page (list_params start_date end_date)"
    using assms(2) by (simp add: list_params_def)
  show ?thesis
    unfolding get_github_data_def
    using loop_last_page [where net = net and w = w, OF assms(1) lt, of "RepoUrl owner repo endpoint"
        "auth_headers token" "[]" 1]
    by simp
qed

text \<open>
  C10: a pull-request item whose \<^verbatim>\<open>user\<close> member is present and null makes the
  loop body raise AttributeError (\<^verbatim>\<open>None\<close> has no \<^verbatim>\<open>get\<close>); it does not
  fall back to \<^verbatim>\<open>unknown\<close>.
\<close>

theorem pull_request_null_user_raises:
  "map_of (rev kvs) ''user'' = Some JNull \<Longrightarrow>
   item_step net owner repo ''pulls'' token (JObj kvs) user_stats w = (Inl AttributeError, w)"
  by (simp add: item_step_def pulls_login_def bind_err_def)

theorem pull_request_null_user_raises_witness:
  "map_of (rev [(''url'', JStr ''https://api.github.com/repos/octo/demo/pulls/1''),
                (''user'', JNull)]) ''user'' = Some JNull
   \<and> item_step (net_single pr_null_user not_found) ''octo'' ''demo'' ''pulls'' None pr_null_user [] w0
       = (Inl AttributeError, w0)"
  using pull_request_null_user_raises
    [of "[(''url'', JStr ''https://api.github.com/repos/octo/demo/pulls/1''), (''user'', JNull)]"
        "net_single pr_null_user not_found" "''octo''" "''demo''" None "[]" w0]
  by (simp add: pr_null_user_def)

lemma pull_request_null_user_run:
  "get_user_stats_per_endpoint (net_single pr_null_user not_found) ''octo'' ''demo'' ''pulls''
     ''2024-01-01'' ''2024-01-31'' None w0 =
   Some (Inl AttributeError,
         \<lparr>requests = [page_request (RepoUrl ''octo'' ''demo'' ''pulls'')
                        (list_params ''2024-01-01'' ''2024-01-31'') None 1],
          printed = [], slept = 0\<rparr>)"
proof -
  have n: "net_single pr_null_user not_found (length (requests w0)) = Some (ok_page [pr_null_user])"
    by (simp add: net_single_def w0_def)
  have l: "length [x] < (100::nat)" for x :: json
    by simp
  show ?thesis
    unfolding get_user_stats_per_endpoint_def
      get_github_data_single_page [where net = "net_single pr_null_user not_found" and w = w0, OF n l]
    by (simp add: item_step_def pulls_login_def bind_err_def pr_null_user_def w0_def
        auth_headers_def)
qed

text \<open>
  C5, at the input on which the code departs from it: a commit whose \<^verbatim>\<open>author\<close>
  member is null (no linked account) and whose commit metadata names Jane Doe. The
  loop body raises AttributeError, and so does the whole aggregation.
\<close>

theorem commit_null_author_raises:
  "item_step (net_single commit_null_author not_found) ''octo'' ''demo'' ''commits'' None
     commit_null_author [] w0 = (Inl AttributeError, w0)
   \<and> get_user_stats_per_endpoint (net_single commit_null_author not_found) ''octo'' ''demo''
       ''commits'' ''2024-01-01'' ''2024-01-31'' None w0 =
     Some (Inl AttributeError,
           \<lparr>requests = [page_request (RepoUrl ''octo'' ''demo'' ''commits'')
                          (list_params ''2024-01-01'' ''2024-01-31'') None 1],
            printed = [], slept = 0\<rparr>)"
proof
  show "item_step (net_single commit_null_author not_found) ''octo'' ''demo'' ''commits'' None
     commit_null_author [] w0 = (Inl AttributeError, w0)"
    by (simp add: item_step_def commits_login_def bind_err_def commit_null_author_def)
  have n: "net_single commit_null_author not_found (length (requests w0))
      = Some (ok_page [commit_null_author])"
    by (simp add: net_single_def w0_def)
  have l: "length [x] < (100::nat)" for x :: json
    by simp
  show "get_user_stats_per_endpoint (net_single commit_null_author not_found) ''octo'' ''demo''
       ''commits'' ''2024-01-01'' ''2024-01-31'' None w0 =
     Some (Inl AttributeError,
           \<lparr>requests = [page_request (RepoUrl ''octo'' ''demo'' ''commits'')
                          (list_params ''2024-01-01'' ''2024-01-31'') None 1],
            printed = [], slept = 0\<rparr>)"
    unfolding get_user_stats_per_endpoint_def
      get_github_data_single_page [where net = "net_single commit_null_author not_found"
        and w = w0, OF n l]
    by (simp add: item_step_def commits_login_def bind_err_def commit_null_author_def w0_def
        auth_headers_def)
qed








section \<open>Every entry records some activity\<close>

lemma all_modify:
  assumes "list_all (\<lambda>e. Q (snd e)) d" and "\<And>c. Q c \<Longrightarrow> Q (f c)"
  shows "list_all (\<lambda>e. Q (snd e)) (stats_modify k f d)"
  using assms(1) by (induction d) (auto simp: assms(2))

lemma modify_append_new:
  "stats_get d k = None \<Longrightarrow> stats_modify k f (d @ [(k, z)]) = d @ [(k, f z)]"
  by (induction d) (auto split: if_splits)

lemma all_modify_ensure:
  assumes "list_all (\<lambda>e. Q (snd e)) d" and "\<And>c. Q c \<Longrightarrow> Q (f c)" and "Q (f zero_counters)"
  shows "list_all (\<lambda>e. Q (snd e)) (stats_modify k f (ensure_entry k d))"
proof (cases "stats_get d k")
  case None
  then have "stats_modify k f (ensure_entry k d) = d @ [(k, f zero_counters)]"
    by (simp add: ensure_entry_def modify_append_new)
  with assms(1,3) show ?thesis by simp
next
  case (Some c)
  then have "ensure_entry k d = d" by (simp add: ensure_entry_def)
  with all_modify [OF assms(1,2)] show ?thesis by simp
qed

lemma ensure_idem: "ensure_entry k (ensure_entry k d) = ensure_entry k d"
proof -
  have "stats_get (ensure_entry k d) k \<noteq> None"
    by (simp add: stats_get_ensure)
  then show ?thesis
    by (subst ensure_entry_def) simp
qed

lemma login_ensure_Inr:
  "bind_err m (\<lambda>l. ensure_user l X) = Inr (k, Y) \<longleftrightarrow>
     (\<exists>l. m = Inr l \<and> hashable l = Some k \<and> Y = ensure_entry k X)"
  by (auto simp: bind_err_def ensure_user_def split: sum.splits option.splits)

lemma pulls_branch_result:
  assumes "pulls_branch net token item k us w = (Inr us', w')"
  shows "us' = stats_modify k (\<lambda>c. c\<lparr>prs := prs c + 1\<rparr>) us
     \<or> (\<exists>n. us' = stats_modify k (\<lambda>c. c\<lparr>lines := lines c + n\<rparr>)
                (stats_modify k (\<lambda>c. c\<lparr>prs := prs c + 1\<rparr>) us))"
  using assms
  by (auto simp: pulls_branch_def Let_def
      split: sum.splits json.splits prod.splits option.splits if_splits)

lemma pulls_step_inv:
  assumes "item_step net owner repo ''pulls'' token item us w = (Inr us', w')"
    and "list_all (\<lambda>e. 1 \<le> prs (snd e)) us"
  shows "list_all (\<lambda>e. 1 \<le> prs (snd e)) us'"
proof -
  from assms(1) obtain k where
    b: "pulls_branch net token item k (ensure_entry k us) w = (Inr us', w')"
    by (auto simp: item_step_def login_ensure_Inr split: sum.splits)
  let ?us1 = "stats_modify k (\<lambda>c. c\<lparr>prs := prs c + 1\<rparr>) (ensure_entry k us)"
  have inv: "list_all (\<lambda>e. 1 \<le> prs (snd e)) ?us1"
    by (rule all_modify_ensure [OF assms(2)]) (simp_all add: zero_counters_def)
  from pulls_branch_result [OF b] show ?thesis
  proof
    assume "us' = ?us1"
    with inv show ?thesis by simp
  next
    assume "\<exists>n. us' = stats_modify k (\<lambda>c. c\<lparr>lines := lines c + n\<rparr>) ?us1"
    then obtain n where "us' = stats_modify k (\<lambda>c. c\<lparr>lines := lines c + n\<rparr>) ?us1" ..
    moreover have "list_all (\<lambda>e. 1 \<le> prs (snd e))
        (stats_modify k (\<lambda>c. c\<lparr>lines := lines c + n\<rparr>) ?us1)"
      by (rule all_modify [OF inv]) simp
    ultimately show ?thesis by simp
  qed
qed

lemma commits_branch_result:
  assumes "commits_branch net owner repo token item us w = (Inr us', w')"
  shows "\<exists>k l n. commits_login item = Inr l \<and> hashable l = Some k
     \<and> us' = stats_modify k (\<lambda>c. c\<lparr>lines := lines c + n\<rparr>)
              (stats_modify k (\<lambda>c. c\<lparr>commits := commits c + 1\<rparr>) (ensure_entry k us))"
  using assms
  by (auto simp: commits_branch_def Let_def bind_err_def ensure_user_def
      split: sum.splits prod.splits option.splits)

lemma commits_step_inv:
  assumes "item_step net owner repo ''commits'' token item us w = (Inr us', w')"
    and "list_all (\<lambda>e. 1 \<le> commits (snd e)) us"
  shows "list_all (\<lambda>e. 1 \<le> commits (snd e)) us'"
proof -
  from assms(1) obtain k l where
    l: "commits_login item = Inr l" "hashable l = Some k" and
    b: "commits_branch net owner repo token item (ensure_entry k us) w = (Inr us', w')"
    by (auto simp: item_step_def login_ensure_Inr split: sum.splits)
  from commits_branch_result [OF b] l obtain n where
    us': "us' = stats_modify k (\<lambda>c. c\<lparr>lines := lines c + n\<rparr>)
              (stats_modify k (\<lambda>c. c\<lparr>commits := commits c + 1\<rparr>)
                 (ensure_entry k (ensure_entry k us)))"
    by auto
  let ?us1 = "stats_modify k (\<lambda>c. c\<lparr>commits := commits c + 1\<rparr>) (ensure_entry k us)"
  have inv: "list_all (\<lambda>e. 1 \<le> commits (snd e)) ?us1"
    by (rule all_modify_ensure [OF assms(2)]) (simp_all add: zero_counters_def)
  have "list_all (\<lambda>e. 1 \<le> commits (snd e))
        (stats_modify k (\<lambda>c. c\<lparr>lines := lines c + n\<rparr>) ?us1)"
    by (rule all_modify [OF inv]) simp
  with us' show ?thesis by (simp add: ensure_idem)
qed

lemma aggregate_inv:
  assumes step: "\<And>item us w us' w'.
      item_step net owner repo endpoint token item us w = (Inr us', w') \<Longrightarrow> P us \<Longrightarrow> P us'"
  shows "aggregate net owner repo endpoint token items us w = (Inr us', w') \<Longrightarrow> P us \<Longrightarrow> P us'"
proof (induction items arbitrary: us w)
  case Nil
  then show ?case by simp
next
  case (Cons item items)
  from Cons.prems(1) obtain us1 w1 where
    s: "item_step net owner repo endpoint token item us w = (Inr us1, w1)" and
    r: "aggregate net owner repo endpoint token items us1 w1 = (Inr us', w')"
    by (auto split: prod.splits sum.splits)
  from step [OF s Cons.prems(2)] have "P us1" .
  from Cons.IH [OF r this] show ?case .
qed

lemma pulls_stats_inv:
  assumes "get_user_stats_per_endpoint net owner repo ''pulls'' start_date end_date token w
      = Some (Inr pr_stats, w')"
  shows "list_all (\<lambda>e. 1 \<le> prs (snd e)) pr_stats"
proof -
  from assms obtain items w1 where
    a: "aggregate net owner repo ''pulls'' token items [] w1 = (Inr pr_stats, w')"
    by (auto simp: get_user_stats_per_endpoint_def split: option.splits prod.splits sum.splits)
  show ?thesis
    by (rule aggregate_inv [where P = "list_all (\<lambda>e. 1 \<le> prs (snd e))", OF _ a])
      (auto intro: pulls_step_inv)
qed

lemma commits_stats_inv:
  assumes "get_user_stats_per_endpoint net owner repo ''commits'' start_date end_date token w
      = Some (Inr commit_stats, w')"
  shows "list_all (\<lambda>e. 1 \<le> commits (snd e)) commit_stats"
proof -
  from assms obtain items w1 where
    a: "aggregate net owner repo ''commits'' token items [] w1 = (Inr commit_stats, w')"
    by (auto simp: get_user_stats_per_endpoint_def split: option.splits prod.splits sum.splits)
  show ?thesis
    by (rule aggregate_inv [where P = "list_all (\<lambda>e. 1 \<le> commits (snd e))", OF _ a])
      (auto intro: commits_step_inv)
qed

lemma merge_prs_inv:
  "list_all (\<lambda>e. 1 \<le> prs (snd e)) ps \<Longrightarrow>
   list_all (\<lambda>e. 1 \<le> prs (snd e) \<or> 1 \<le> commits (snd e)) us \<Longrightarrow>
   list_all (\<lambda>e. 1 \<le> prs (snd e) \<or> 1 \<le> commits (snd e)) (merge_prs ps us)"
proof (induction ps us rule: merge_prs.induct)
  case (1 us)
  then show ?case by simp
next
  case (2 user st rest us)
  from "2.prems"(1) have st: "1 \<le> prs st" and rest: "list_all (\<lambda>e. 1 \<le> prs (snd e)) rest"
    by simp_all
  let ?Q = "\<lambda>c. 1 \<le> prs c \<or> 1 \<le> commits c"
  have "list_all (\<lambda>e. ?Q (snd e))
      (stats_modify user (\<lambda>c. c\<lparr>prs := prs st\<rparr>) (ensure_entry user us))"
    by (rule all_modify_ensure [where Q = ?Q, OF "2.prems"(2)]) (simp_all add: st)
  then have "list_all (\<lambda>e. ?Q (snd e))
      (stats_modify user (\<lambda>c. c\<lparr>lines := lines c + lines st\<rparr>)
         (stats_modify user (\<lambda>c. c\<lparr>prs := prs st\<rparr>) (ensure_entry user us)))"
    by (rule all_modify [where Q = ?Q]) simp
  from "2.IH" [OF rest this] show ?case by simp
qed

lemma merge_commits_inv:
  "list_all (\<lambda>e. 1 \<le> commits (snd e)) cs \<Longrightarrow>
   list_all (\<lambda>e. 1 \<le> prs (snd e) \<or> 1 \<le> commits (snd e)) us \<Longrightarrow>
   list_all (\<lambda>e. 1 \<le> prs (snd e) \<or> 1 \<le> commits (snd e)) (merge_commits cs us)"
proof (induction cs us rule: merge_commits.induct)
  case (1 us)
  then show ?case by simp
next
  case (2 user st rest us)
  from "2.prems"(1) have st: "1 \<le> commits st"
    and rest: "list_all (\<lambda>e. 1 \<le> commits (snd e)) rest"
    by simp_all
  let ?Q = "\<lambda>c. 1 \<le> prs c \<or> 1 \<le> commits c"
  have "list_all (\<lambda>e. ?Q (snd e))
      (stats_modify user (\<lambda>c. c\<lparr>commits := commits st\<rparr>) (ensure_entry user us))"
    by (rule all_modify_ensure [where Q = ?Q, OF "2.prems"(2)]) (simp_all add: st)
  then have "list_all (\<lambda>e. ?Q (snd e))
      (stats_modify user (\<lambda>c. c\<lparr>lines := lines c + lines st\<rparr>)
         (stats_modify user (\<lambda>c. c\<lparr>commits := commits st\<rparr>) (ensure_entry user us)))"
    by (rule all_modify [where Q = ?Q]) simp
  from "2.IH" [OF rest this] show ?case by simp
qed

text \<open>
  C8: in every run that reaches the report, each contributor of the merged mapping has
  a positive pull-request count or a positive commit count.
\<close>

theorem merged_entries_have_activity:
  assumes "merged_stats net owner repo start_date end_date token w = Some (Inr user_stats, w')"
    and "(user, st) \<in> set user_stats"
  shows "0 < prs st \<or> 0 < commits st"
proof -
  from assms(1) obtain pr_stats w1 commit_stats where
    p: "get_user_stats_per_endpoint net owner repo ''pulls'' start_date end_date token w
          = Some (Inr pr_stats, w1)" and
    c: "get_user_stats_per_endpoint net owner repo ''commits'' start_date end_date token w1
          = Some (Inr commit_stats, w')" and
    m: "user_stats = merge_stats pr_stats commit_stats"
    by (auto simp: merged_stats_def split: option.splits prod.splits sum.splits)
  have "list_all (\<lambda>e. 1 \<le> prs (snd e) \<or> 1 \<le> commits (snd e)) (merge_prs pr_stats [])"
    by (rule merge_prs_inv [OF pulls_stats_inv [OF p]]) simp
  then have "list_all (\<lambda>e. 1 \<le> prs (snd e) \<or> 1 \<le> commits (snd e)) user_stats"
    unfolding m merge_stats_def by (rule merge_commits_inv [OF commits_stats_inv [OF c]])
  with assms(2) have "1 \<le> prs st \<or> 1 \<le> commits st"
    by (auto simp: list_all_iff)
  then show ?thesis by auto
qed

theorem merged_entries_have_activity_witness:
  "merged_stats net_activity ''octo'' ''demo'' ''2024-01-01'' ''2024-01-31'' None w0 =
     Some (Inr [(KStr ''alice'', \<lparr>prs = 1, commits = 0, lines = 10\<rparr>),
                (KStr ''bob'', \<lparr>prs = 0, commits = 1, lines = 7\<rparr>)],
           \<lparr>requests =
              [page_request (RepoUrl ''octo'' ''demo'' ''pulls'')
                 (list_params ''2024-01-01'' ''2024-01-31'') None 1,
               \<lparr>req_url = FilesUrl ''https://api.github.com/repos/octo/demo/pulls/3/files'',
                req_params = None, req_headers = None\<rparr>,
               page_request (RepoUrl ''octo'' ''demo'' ''commits'')
                 (list_params ''2024-01-01'' ''2024-01-31'') None 1,
               \<lparr>req_url = CommitUrl ''octo'' ''demo'' (JStr ''0a1b2c''),
                req_params = None, req_headers = None\<rparr>],
            printed = [], slept = 0\<rparr>)
   \<and> (KStr ''bob'', \<lparr>prs = 0, commits = 1, lines = 7\<rparr>)
       \<in> set [(KStr ''alice'', \<lparr>prs = 1, commits = 0, lines = 10\<rparr>),
               (KStr ''bob'', \<lparr>prs = 0, commits = 1, lines = 7\<rparr>)]
   \<and> (0 < prs \<lparr>prs = 0, commits = 1, lines = 7\<rparr>
       \<or> 0 < commits \<lparr>prs = 0, commits = 1, lines = 7\<rparr>)"
proof -
  let ?r1 = "page_request (RepoUrl ''octo'' ''demo'' ''pulls'')
                 (list_params ''2024-01-01'' ''2024-01-31'') None 1"
  let ?r2 = "\<lparr>req_url = FilesUrl ''https://api.github.com/repos/octo/demo/pulls/3/files'',
                req_params = None, req_headers = None\<rparr>"
  let ?r3 = "page_request (RepoUrl ''octo'' ''demo'' ''commits'')
                 (list_params ''2024-01-01'' ''2024-01-31'') None 1"
  let ?r4 = "\<lparr>req_url = CommitUrl ''octo'' ''demo'' (JStr ''0a1b2c''),
                req_params = None, req_headers = None\<rparr>"
  let ?w2 = "\<lparr>requests = [?r1, ?r2], printed = [], slept = 0\<rparr>"
  let ?w4 = "\<lparr>requests = [?r1, ?r2, ?r3, ?r4], printed = [], slept = 0\<rparr>"
  let ?alice = "(KStr ''alice'', \<lparr>prs = 1, commits = 0, lines = 10\<rparr>)"
  let ?bob = "(KStr ''bob'', \<lparr>prs = 0, commits = 1, lines = 7\<rparr>)"
  have l: "length [x] < (100::nat)" for x :: json
    by simp
  have n0: "net_activity (length (requests w0)) = Some (ok_page [pr_alice])"
    by (simp add: net_activity_def w0_def)
  have n2: "net_activity (length (requests ?w2)) = Some (ok_page [commit_bob])"
    by (simp add: net_activity_def)
  have p: "get_user_stats_per_endpoint net_activity ''octo'' ''demo'' ''pulls''
      ''2024-01-01'' ''2024-01-31'' None w0 = Some (Inr [?alice], ?w2)"
    unfolding get_user_stats_per_endpoint_def
      get_github_data_single_page [where net = net_activity and w = w0, OF n0 l]
    by (simp add: item_step_def pulls_login_def pulls_branch_def bind_err_def ensure_user_def
        ensure_entry_def zero_counters_def requests_get_def net_activity_def int_add_def
        pr_alice_def w0_def auth_headers_def)
  have c: "get_user_stats_per_endpoint net_activity ''octo'' ''demo'' ''commits''
      ''2024-01-01'' ''2024-01-31'' None ?w2 =
      Some (Inr [(KStr ''bob'', \<lparr>prs = 0, commits = 1, lines = 7\<rparr>)], ?w4)"
    unfolding get_user_stats_per_endpoint_def
      get_github_data_single_page [where net = net_activity and w = ?w2, OF n2 l]
    by (simp add: item_step_def commits_login_def commits_branch_def get_commit_details_def
        bind_err_def ensure_user_def ensure_entry_def zero_counters_def requests_get_def
        net_activity_def py_add_def commit_bob_def auth_headers_def)
  have run: "merged_stats net_activity ''octo'' ''demo'' ''2024-01-01'' ''2024-01-31'' None w0 =
     Some (Inr [?alice, ?bob], ?w4)"
    unfolding merged_stats_def p option.case prod.case sum.case c
    by (simp add: merge_stats_def ensure_entry_def zero_counters_def key_eq_def)
  have mem: "?bob \<in> set [?alice, ?bob]" by simp
  from merged_entries_have_activity [OF run mem] run mem show ?thesis
    by blast
qed

end
